theory Spec2Isabelle
  imports Main "HOL-Library.Word" "HOL-Library.AList"
begin

section \<open>Package socket: the message (src/socket/message.go)\<close>

text \<open>
  Go's \<open>byte\<close>, \<open>uint32\<close> and \<open>int32\<close> are machine words; \<open>int32\<close> is read
  through \<open>sint\<close> and compared with the signed orders.
\<close>

type_synonym byte = "8 word"
type_synonym uint32 = "32 word"
type_synonym int32 = "32 word"
type_synonym bytes = "byte list"

text \<open>
  Go \<open>error\<close> values. \<open>ErrNet msg t\<close> is an error that implements \<open>net.Error\<close>,
  with \<open>t\<close> what its \<open>Temporary()\<close> answers; \<open>ErrOther\<close> is any other error, by its
  text. A nil \<open>error\<close> is \<open>None\<close> of \<open>error option\<close>.
\<close>

datatype error =
    ErrExceedMessageSizeLimit
  | ErrUnknownCodec byte
  | ErrListenClosed
  | ErrNet string bool
  | ErrPanic string
  | ErrOther string

datatype panic = Panic string

subsection \<open>The global size limit\<close>

text \<open>
  The package variable \<open>messageSizeLimit\<close> is the only global the message code reads;
  it is threaded explicitly as a one-field record of globals.
\<close>

definition MaxUint32 :: uint32 where
  "MaxUint32 = 0xFFFFFFFF"

record globals =
  messageSizeLimit :: uint32

definition init_globals :: globals where
  "init_globals = \<lparr> messageSizeLimit = MaxUint32 \<rparr>"

definition MessageSizeLimit :: "globals \<Rightarrow> uint32" where
  "MessageSizeLimit g = messageSizeLimit g"

definition SetMessageSizeLimit :: "uint32 \<Rightarrow> globals \<Rightarrow> globals" where
  "SetMessageSizeLimit maxMessageSize g =
     (if maxMessageSize \<le> 0
      then g\<lparr> messageSizeLimit := MaxUint32 \<rparr>
      else g\<lparr> messageSizeLimit := maxMessageSize \<rparr>)"

definition checkMessageSize :: "globals \<Rightarrow> uint32 \<Rightarrow> error option" where
  "checkMessageSize g messageSize =
     (if messageSize > messageSizeLimit g then Some ErrExceedMessageSizeLimit else None)"

subsection \<open>The message record\<close>

text \<open>
  \<open>body\<close> is an \<open>interface{}\<close>; the type switches of the source distinguish the nil
  interface, a \<open>*[]byte\<close> (which may be a nil pointer), a \<open>[]byte\<close>, and every other
  value. The pointee of a \<open>*[]byte\<close> is kept by value: nothing here depends on aliasing.
\<close>

datatype 'v body =
    NilBody
  | BytesPtr "bytes option"
  | Bytes bytes
  | Value 'v

datatype go_context = GoContext nat

text \<open>
  The four required fields are what the \<open>Header\<close> interface exposes; a
  \<open>NewBodyFunc\<close> receives the message through that interface. It is taken to be a
  function of the header that only builds a body.

  \<open>meta\<close> (\<open>*utils.Args\<close>) and \<open>xferPipe\<close> (\<open>*xfer.XferPipe\<close>) are allocated by
  \<open>NewMessage\<close>, the only constructor of the unexported struct, and never set to nil, so
  they are kept by value: an ordered list of key/value pairs and a list of filter ids.
\<close>

record header =
  seq :: int32
  mtype :: byte
  serviceMethod :: string
  meta :: "(string \<times> string) list"

record 'v message = header +
  bodyCodec :: byte
  body :: "'v body"
  newBodyFunc :: "(header \<Rightarrow> 'v body) option"
  xferPipe :: "byte list"
  msize :: uint32
  ctx :: "go_context option"

definition Size :: "'v message \<Rightarrow> uint32" where
  "Size m = msize m"

text \<open>\<open>SetSize\<close> returns the error and the message as it is afterwards.\<close>

definition SetSize :: "globals \<Rightarrow> 'v message \<Rightarrow> uint32 \<Rightarrow> error option \<times> 'v message" where
  "SetSize g m sz =
     (case checkMessageSize g sz of
        Some err \<Rightarrow> (Some err, m)
      | None \<Rightarrow> (None, m\<lparr> msize := sz \<rparr>))"


subsection \<open>Body codecs\<close>

text \<open>
  A codec as the message code uses it: \<open>Marshal\<close> returns Go's pair of bytes and error,
  \<open>Unmarshal\<close> fills the target it is handed and returns an error.
\<close>

record 'v Codec =
  Marshal :: "'v \<Rightarrow> bytes \<times> error option"
  Unmarshal :: "bytes \<Rightarrow> 'v body \<Rightarrow> error option \<times> 'v body"

type_synonym 'v codec_registry = "byte \<rightharpoonup> 'v Codec"

text \<open>
  Modelled from the spec: \<open>codec.Get\<close> (package codec, not among the sources). The registry
  is a mapping from 1-byte id to codec, and "lookup by unknown id fails with unknown-codec".
\<close>

definition codec_Get :: "'v codec_registry \<Rightarrow> byte \<Rightarrow> error + 'v Codec" where
  "codec_Get reg codecID =
     (case reg codecID of None \<Rightarrow> Inl (ErrUnknownCodec codecID) | Some c \<Rightarrow> Inr c)"

text \<open>
  Modelled from the spec: the constant \<open>codec.NilCodecID\<close> (package codec, not among the
  sources); for the body codec id, "0 means no codec".
\<close>

definition NilCodecID :: byte where
  "NilCodecID = 0"

text \<open>
  Modelled from the spec: \<open>(*utils.Args).Reset\<close> and \<open>(*xfer.XferPipe).Reset\<close> (packages
  utils and xfer, not among the sources); reset "clears every field to zero/empty".
\<close>

definition Args_Reset :: "(string \<times> string) list \<Rightarrow> (string \<times> string) list" where
  "Args_Reset a = []"

definition XferPipe_Reset :: "byte list \<Rightarrow> byte list" where
  "XferPipe_Reset x = []"

subsection \<open>Settings and Reset\<close>

text \<open>
  A \<open>MessageSetting\<close> is a closure over the message, possibly the nil function; a closure
  may panic (as \<open>WithXferPipe\<close> does on an unregistered filter), which aborts the caller.
\<close>

type_synonym 'v MessageSetting = "('v message \<Rightarrow> panic + 'v message) option"

definition WithNothing :: "'v MessageSetting" where
  "WithNothing = Some (\<lambda>m. Inr m)"

definition WithContext :: "go_context option \<Rightarrow> 'v MessageSetting" where
  "WithContext c = Some (\<lambda>m. Inr (m\<lparr> ctx := c \<rparr>))"

definition WithMtype :: "byte \<Rightarrow> 'v MessageSetting" where
  "WithMtype t = Some (\<lambda>m. Inr (m\<lparr> mtype := t \<rparr>))"

definition WithServiceMethod :: "string \<Rightarrow> 'v MessageSetting" where
  "WithServiceMethod s = Some (\<lambda>m. Inr (m\<lparr> serviceMethod := s \<rparr>))"

definition WithBodyCodec :: "byte \<Rightarrow> 'v MessageSetting" where
  "WithBodyCodec c = Some (\<lambda>m. Inr (m\<lparr> bodyCodec := c \<rparr>))"

definition WithBody :: "'v body \<Rightarrow> 'v MessageSetting" where
  "WithBody b = Some (\<lambda>m. Inr (m\<lparr> body := b \<rparr>))"

definition WithNewBody :: "(header \<Rightarrow> 'v body) option \<Rightarrow> 'v MessageSetting" where
  "WithNewBody f = Some (\<lambda>m. Inr (m\<lparr> newBodyFunc := f \<rparr>))"

fun doSetting :: "'v message \<Rightarrow> 'v MessageSetting list \<Rightarrow> panic + 'v message" where
  "doSetting m [] = Inr m"
| "doSetting m (fn # settings) =
     (case fn of
        None \<Rightarrow> doSetting m settings
      | Some f \<Rightarrow> (case f m of Inl p \<Rightarrow> Inl p | Inr m' \<Rightarrow> doSetting m' settings))"

definition Reset :: "'v message \<Rightarrow> 'v MessageSetting list \<Rightarrow> panic + 'v message" where
  "Reset m settings =
     doSetting
       (m\<lparr> body := NilBody,
           meta := Args_Reset (meta m),
           xferPipe := XferPipe_Reset (xferPipe m),
           newBodyFunc := None,
           seq := 0,
           mtype := 0,
           serviceMethod := [],
           msize := 0,
           ctx := None,
           bodyCodec := NilCodecID \<rparr>)
       settings"

subsection \<open>Marshalling and unmarshalling the body\<close>

definition MarshalBody :: "'v codec_registry \<Rightarrow> 'v message \<Rightarrow> bytes \<times> error option" where
  "MarshalBody reg m =
     (case body m of
        Value v \<Rightarrow>
          (case codec_Get reg (bodyCodec m) of
             Inl err \<Rightarrow> ([], Some err)
           | Inr c \<Rightarrow> Marshal c v)
      | NilBody \<Rightarrow> ([], None)
      | BytesPtr None \<Rightarrow> ([], None)
      | BytesPtr (Some b) \<Rightarrow> (b, None)
      | Bytes b \<Rightarrow> (b, None))"

text \<open>
  \<open>UnmarshalBody\<close> returns the error and the message afterwards. Its type switch has no
  \<open>[]byte\<close> case, so a \<open>[]byte\<close> body goes to the codec like any other value; writing
  through a nil \<open>*[]byte\<close> is Go's nil-pointer panic. In the \<open>*[]byte\<close> case both branches
  (fresh buffer, or re-slice within capacity) leave the pointee holding a copy of
  \<open>bodyBytes\<close>.
\<close>

definition UnmarshalBody ::
  "'v codec_registry \<Rightarrow> 'v message \<Rightarrow> bytes \<Rightarrow> panic + (error option \<times> 'v message)" where
  "UnmarshalBody reg m bodyBytes =
     (let m1 = (case (body m, newBodyFunc m) of
                  (NilBody, Some f) \<Rightarrow> m\<lparr> body := f (header.truncate m) \<rparr>
                | _ \<Rightarrow> m);
          len = length bodyBytes
      in if len = 0 then Inr (None, m1)
         else (case body m1 of
                 NilBody \<Rightarrow> Inr (None, m1)
               | BytesPtr None \<Rightarrow> Inl (Panic ''nil pointer dereference'')
               | BytesPtr (Some old) \<Rightarrow> Inr (None, m1\<lparr> body := BytesPtr (Some bodyBytes) \<rparr>)
               | _ \<Rightarrow>
                   (case codec_Get reg (bodyCodec m1) of
                      Inl err \<Rightarrow> Inr (Some err, m1)
                    | Inr c \<Rightarrow>
                        (case Unmarshal c bodyBytes (body m1) of
                           (e, b') \<Rightarrow> Inr (e, m1\<lparr> body := b' \<rparr>)))))"

section \<open>Package tp: the peer (src/peer.go)\<close>

text \<open>\<open>time.Duration\<close> is an \<open>int64\<close> count of nanoseconds.\<close>

type_synonym Duration = "64 word"

definition Millisecond :: Duration where
  "Millisecond = 1000000"

definition Second :: Duration where
  "Second = 1000000000"

subsection \<open>Connections, sessions, plugins\<close>

text \<open>
  A \<open>net.Conn\<close> as the peer looks at it: its addresses (by their \<open>String()\<close>), whether its
  dynamic type is \<open>*tls.Conn\<close>, and what its \<open>Handshake()\<close> returns.
\<close>

record conn =
  localAddr :: string
  remoteAddr :: string
  isTLS :: bool
  handshakeErr :: "error option"

datatype status = statusPreparing | statusOk | statusActiveClosing | statusPassiveClosing | statusClosed

text \<open>
  Modelled from the spec: the session and its socket (session.go and package socket's
  socket.go, not among the sources). A session owns one socket, "replaced on redial", and
  "a per-session identifier string"; its state is one of preparing, ok, active-closing,
  passive-closing, closed. \<open>sess_conn\<close> is the socket's connection, \<open>sess_id\<close> the socket's
  identifier, \<open>canRedial\<close> says that \<open>redialForClientLocked\<close> is set.
\<close>

record session =
  sess_conn :: conn
  sess_id :: string
  sess_status :: status
  canRedial :: bool

text \<open>
  Modelled from the spec: the accessors of the session and its socket (same files):
  the local address is that of the socket's connection, \<open>ID\<close> and \<open>SetID\<close> read and
  write the identifier, the socket's \<open>Reset\<close> replaces the connection, and \<open>Close\<close> ends
  in the state closed.
\<close>

definition LocalAddr :: "session \<Rightarrow> string" where
  "LocalAddr sess = localAddr (sess_conn sess)"

definition ID :: "session \<Rightarrow> string" where
  "ID sess = sess_id sess"

definition SetID :: "session \<Rightarrow> string \<Rightarrow> session" where
  "SetID sess newID = sess\<lparr> sess_id := newID \<rparr>"

definition socket_Reset :: "session \<Rightarrow> conn \<Rightarrow> session" where
  "socket_Reset sess c = sess\<lparr> sess_conn := c \<rparr>"

definition session_Close :: "session \<Rightarrow> session" where
  "session_Close sess = sess\<lparr> sess_status := statusClosed \<rparr>"

text \<open>
  \<open>tls.Client\<close> of Go's library wraps the connection: the addresses are those of the
  wrapped connection, the dynamic type is \<open>*tls.Conn\<close>.
\<close>

definition tls_Client :: "conn \<Rightarrow> conn" where
  "tls_Client c = c\<lparr> isTLS := True \<rparr>"

text \<open>
  Modelled from the spec: \<open>*Rerror\<close> and \<open>rerrDialFailed\<close> (not among the sources): the
  error kind dial-failed, "connection establishment exhausted redial budget", carrying a
  reason text.
\<close>

datatype rerror_kind = DialFailed | PluginFailed

record Rerror =
  kind :: rerror_kind
  Reason :: string

definition rerrDialFailed :: Rerror where
  "rerrDialFailed = \<lparr> kind = DialFailed, Reason = [] \<rparr>"

definition SetReason :: "Rerror \<Rightarrow> string \<Rightarrow> Rerror" where
  "SetReason rerr reason = rerr\<lparr> Reason := reason \<rparr>"

definition ToError :: "Rerror \<Rightarrow> error" where
  "ToError rerr = ErrOther (Reason rerr)"

text \<open>The text of an error, Go's \<open>Error()\<close>.\<close>

definition Error :: "error \<Rightarrow> string" where
  "Error e =
     (case e of
        ErrExceedMessageSizeLimit \<Rightarrow> ''Size of package exceeds limit''
      | ErrUnknownCodec c \<Rightarrow> ''unknown codec''
      | ErrListenClosed \<Rightarrow> ''listener is closed''
      | ErrNet msg t \<Rightarrow> msg
      | ErrPanic msg \<Rightarrow> msg
      | ErrOther msg \<Rightarrow> msg)"

text \<open>
  The plugin container (not among the sources) is a parameter: its \<open>postDial\<close> and
  \<open>postAccept\<close> hooks receive the session, may change it, and may answer with an error.
\<close>

record PluginContainer =
  postDial :: "session \<Rightarrow> Rerror option \<times> session"
  postAccept :: "session \<Rightarrow> Rerror option \<times> session"

text \<open>
  Modelled from the spec: the session hub (not among the sources), "a session registry
  (keyed by session id)"; kept as an association list so that \<open>Range\<close> has an order.
\<close>

type_synonym SessionHub = "(string \<times> session) list"

definition hub_Set :: "SessionHub \<Rightarrow> session \<Rightarrow> SessionHub" where
  "hub_Set hub sess = AList.update (ID sess) sess hub"


record listener =
  lis_addr :: string
  isQuic :: bool

text \<open>
  The fields of \<open>peer\<close> that the functions below read or write. \<open>closeCh_closed\<close> says
  whether the channel \<open>closeCh\<close> has been closed; \<open>tlsConfig_set\<close> whether \<open>tlsConfig\<close> is
  non-nil; \<open>listeners\<close> is a Go map used as a set, ranged here in list order.
\<close>

record peer =
  pluginContainer :: PluginContainer
  sessHub :: SessionHub
  closeCh_closed :: bool
  defaultSessionAge :: Duration
  defaultContextAge :: Duration
  tlsConfig_set :: bool
  redialTimes :: int32
  listeners :: "listener list"

text \<open>
  Modelled from the spec: \<open>newSession\<close> (session.go, not among the sources) binds the
  connection to a fresh session in the first of its states; the identifier is "initially
  the local address".
\<close>

definition newSession :: "peer \<Rightarrow> conn \<Rightarrow> session" where
  "newSession p c =
     \<lparr> sess_conn = c, sess_id = localAddr c, sess_status = statusPreparing,
       canRedial = False \<rparr>"

subsection \<open>The redial counter and Dial\<close>

definition newRedialTimes :: "peer \<Rightarrow> int32" where
  "newRedialTimes p = redialTimes p"

text \<open>\<open>redialTimes.next\<close>: the answer and the counter afterwards.\<close>

definition redialTimes_next :: "int32 \<Rightarrow> bool \<times> int32" where
  "redialTimes_next r =
     (let t = r
      in if t = 0 then (False, r)
         else if 0 <s t then (True, r - 1)
         else (True, r))"

text \<open>
  \<open>dialFunc\<close> is a closure over the network: the model hands the function its answers,
  \<open>dialFunc i\<close> being what the call number \<open>i\<close> (from 0) returns, an error or a
  connection. The redial loop of \<open>newSessionForClient\<close> carries the counter, the number
  of calls of \<open>dialFunc\<close> made so far and the last dial error; it returns the outcome of
  the last call and the number of calls. It does not return when the counter is negative
  and no call ever succeeds.
\<close>

partial_function (option) redial_loop ::
  "(nat \<Rightarrow> error + conn) \<Rightarrow> int32 \<Rightarrow> nat \<Rightarrow> error \<Rightarrow> ((error + conn) \<times> nat) option" where
  "redial_loop dialFunc r calls dialErr =
     (case redialTimes_next r of
        (ok, r') \<Rightarrow>
          if ok
          then (case dialFunc calls of
                  Inl dialErr' \<Rightarrow> redial_loop dialFunc r' (Suc calls) dialErr'
                | Inr c \<Rightarrow> Some (Inr c, Suc calls))
          else Some (Inl dialErr, calls))"

text \<open>
  \<open>newSessionForClient\<close> returns the error or the session, the number of calls of
  \<open>dialFunc\<close> it made, and the peer afterwards.
\<close>

definition newSessionForClient ::
  "peer \<Rightarrow> (nat \<Rightarrow> error + conn) \<Rightarrow> ((Rerror + session) \<times> nat \<times> peer) option" where
  "newSessionForClient p dialFunc =
     (case (case dialFunc 0 of
              Inl dialErr \<Rightarrow> redial_loop dialFunc (newRedialTimes p) 1 dialErr
            | Inr c \<Rightarrow> Some (Inr c, 1)) of
        None \<Rightarrow> None
      | Some (Inl dialErr, calls) \<Rightarrow>
          Some (Inl (SetReason rerrDialFailed (Error dialErr)), calls, p)
      | Some (Inr c, calls) \<Rightarrow>
          (let sess = newSession p c;
               sess = sess\<lparr> canRedial := (redialTimes p \<noteq> 0) \<rparr>;
               sess = SetID sess (LocalAddr sess)
           in case postDial (pluginContainer p) sess of
                (Some rerr, sess') \<Rightarrow> Some (Inl rerr, calls, p)
              | (None, sess') \<Rightarrow>
                  Some (Inr sess', calls, p\<lparr> sessHub := hub_Set (sessHub p) sess' \<rparr>)))"

definition Dial :: "peer \<Rightarrow> (nat \<Rightarrow> error + conn) \<Rightarrow> ((Rerror + session) \<times> nat \<times> peer) option" where
  "Dial p dialFunc = newSessionForClient p dialFunc"

text \<open>
  \<open>renewSessionForClient\<close> calls \<open>dialFunc\<close> once; \<open>dialed\<close> is what that call returns.
  The result is the error, the session afterwards and the peer afterwards.
\<close>

definition renewSessionForClient ::
  "peer \<Rightarrow> session \<Rightarrow> error + conn \<Rightarrow> error option \<times> session \<times> peer" where
  "renewSessionForClient p sess dialed =
     (case dialed of
        Inl dialErr \<Rightarrow> (Some dialErr, sess, p)
      | Inr c0 \<Rightarrow>
          (let c = (if tlsConfig_set p then tls_Client c0 else c0);
               oldIP = LocalAddr sess;
               oldID = ID sess;
               sess1 = socket_Reset sess c;
               sess2 = (if oldIP = oldID then SetID sess1 (LocalAddr sess1)
                        else SetID sess1 oldID);
               sess3 = sess2\<lparr> sess_status := statusOk \<rparr>
           in case postDial (pluginContainer p) sess3 of
                (Some rerr, sess4) \<Rightarrow> (Some (ToError rerr), session_Close sess4, p)
              | (None, sess4) \<Rightarrow>
                  (None, sess4, p\<lparr> sessHub := hub_Set (sessHub p) sess4 \<rparr>)))"

subsection \<open>The accept loop\<close>

text \<open>
  What one call of \<open>lis.Accept()\<close> returns, as seen by the loop of \<open>serveListener\<close>: a
  connection, or an error together with whether \<open>closeCh\<close> is found closed by the
  \<open>select\<close> that follows.
\<close>

datatype accept_event = Accepted conn | AcceptFailed error bool

definition is_temporary :: "error \<Rightarrow> bool" where
  "is_temporary e = (case e of ErrNet msg t \<Rightarrow> t | _ \<Rightarrow> False)"

text \<open>
  The loop's state: \<open>tempDelay\<close>, the arguments of the calls of \<open>time.Sleep\<close> so far, and
  the connections for which an accept task has been started.
\<close>

record serve_state =
  tempDelay :: Duration
  slept :: "Duration list"
  started :: "conn list"

text \<open>
  The loop consumes the answers of \<open>Accept\<close> in order. It returns \<open>Some\<close> error when the
  source returns; \<open>None\<close> says that the answers are used up and the loop is waiting in
  \<open>Accept\<close>. The accept tasks run on their own; the loop only starts them.
\<close>

fun serveListener_loop :: "serve_state \<Rightarrow> accept_event list \<Rightarrow> error option \<times> serve_state" where
  "serveListener_loop st [] = (None, st)"
| "serveListener_loop st (AcceptFailed e closed # evs) =
     (if closed then (Some ErrListenClosed, st)
      else if is_temporary e then
        (let td = (if tempDelay st = 0 then 5 * Millisecond else tempDelay st * 2);
             td = (if Second <s td then Second else td)
         in serveListener_loop (st\<lparr> tempDelay := td, slept := slept st @ [td] \<rparr>) evs)
      else (Some e, st))"
| "serveListener_loop st (Accepted c # evs) =
     serveListener_loop (st\<lparr> tempDelay := 0, started := started st @ [c] \<rparr>) evs"

text \<open>The loop starts with \<open>tempDelay\<close> at the zero value of its type.\<close>

definition init_serve_state :: serve_state where
  "init_serve_state = \<lparr> tempDelay = 0, slept = [], started = [] \<rparr>"

definition serveListener ::
  "peer \<Rightarrow> listener \<Rightarrow> accept_event list \<Rightarrow> error option \<times> serve_state \<times> peer" where
  "serveListener p lis evs =
     (let p1 = p\<lparr> listeners := List.insert lis (listeners p) \<rparr>;
          (r, st) = serveListener_loop init_serve_state evs
      in (r, st, p1))"

text \<open>
  The task started for an accepted connection, as the list of its steps in order and the
  peer afterwards. Read deadlines are recorded by the age added to the current time.
\<close>

datatype task_step =
    SetReadDeadline Duration
  | Handshake "error option"
  | NewSession
  | PostAccept "Rerror option"
  | SessionClose
  | HubSet string
  | StartReadAndHandle

definition accept_admit :: "peer \<Rightarrow> conn \<Rightarrow> task_step list \<times> peer" where
  "accept_admit p c =
     (let sess = newSession p c
      in case postAccept (pluginContainer p) sess of
           (Some rerr, sess') \<Rightarrow> ([NewSession, PostAccept (Some rerr), SessionClose], p)
         | (None, sess') \<Rightarrow>
             ([NewSession, PostAccept None, HubSet (ID sess'), StartReadAndHandle],
              p\<lparr> sessHub := hub_Set (sessHub p) sess' \<rparr>))"

definition accept_task :: "peer \<Rightarrow> conn \<Rightarrow> task_step list \<times> peer" where
  "accept_task p c =
     (if isTLS c then
        (let tr = (if 0 <s defaultSessionAge p then [SetReadDeadline (defaultSessionAge p)] else [])
                  @ (if 0 <s defaultContextAge p then [SetReadDeadline (defaultContextAge p)] else [])
         in case handshakeErr c of
              Some err \<Rightarrow> (tr @ [Handshake (Some err)], p)
            | None \<Rightarrow>
                (case accept_admit p c of (tr', p') \<Rightarrow> (tr @ [Handshake None] @ tr', p')))
      else accept_admit p c)"

subsection \<open>Closing the peer\<close>




section \<open>Notions used in the statements\<close>

subsection \<open>Applying settings one by one\<close>

text \<open>
  One turn of the loop of \<open>doSetting\<close> on the outcome so far: a nil setting is skipped, a
  panic ends everything.
\<close>

definition apply_setting :: "panic + 'v message \<Rightarrow> 'v MessageSetting \<Rightarrow> panic + 'v message" where
  "apply_setting r fn =
     (case r of
        Inl p \<Rightarrow> Inl p
      | Inr m \<Rightarrow> (case fn of None \<Rightarrow> Inr m | Some f \<Rightarrow> f m))"

subsection \<open>Successive answers of the redial counter\<close>

text \<open>The answers of \<open>k\<close> successive calls of \<open>next\<close> on a counter that starts at \<open>r\<close>.\<close>

fun next_results :: "int32 \<Rightarrow> nat \<Rightarrow> bool list" where
  "next_results r 0 = []"
| "next_results r (Suc k) = (case redialTimes_next r of (b, r') \<Rightarrow> b # next_results r' k)"

subsection \<open>Sleeps of the accept loop\<close>

text \<open>
  A temporary failure is an answer of \<open>Accept\<close> with a temporary error, met while
  \<open>closeCh\<close> is open. After a temporary failure and after a connection the loop goes on.
\<close>

fun temporary_failure :: "accept_event \<Rightarrow> bool" where
  "temporary_failure (AcceptFailed e closed) = (\<not> closed \<and> is_temporary e)"
| "temporary_failure (Accepted c) = False"

fun goes_on :: "accept_event \<Rightarrow> bool" where
  "goes_on (AcceptFailed e closed) = (\<not> closed \<and> is_temporary e)"
| "goes_on (Accepted c) = True"

text \<open>The sleeps that the loop adds to those of \<open>st\<close> while it consumes \<open>evs\<close>.\<close>

definition temp_sleeps :: "serve_state \<Rightarrow> accept_event list \<Rightarrow> Duration list" where
  "temp_sleeps st evs =
     drop (length (slept st)) (slept (snd (serveListener_loop st evs)))"

text \<open>The update of \<open>tempDelay\<close> in the loop, by itself.\<close>

definition next_delay :: "Duration \<Rightarrow> Duration" where
  "next_delay d =
     (let td = (if d = 0 then 5 * Millisecond else d * 2)
      in if Second <s td then Second else td)"

text \<open>5 ms doubled \<open>i\<close> times and capped at 1 s, in nanoseconds.\<close>

definition capped_delay :: "nat \<Rightarrow> int" where
  "capped_delay i = min (5000000 * 2 ^ i) 1000000000"

text \<open>
  The backoff as the specification words it, over any answers of \<open>Accept\<close> and in
  nanoseconds: after \<open>n\<close> temporary failures in a row, the next one sleeps 5 ms doubled
  \<open>n\<close> times and capped at 1 s; a connection starts the count again; any other failure
  ends the loop.
\<close>

fun backoff_sleeps :: "nat \<Rightarrow> accept_event list \<Rightarrow> int list" where
  "backoff_sleeps n [] = []"
| "backoff_sleeps n (Accepted c # evs) = backoff_sleeps 0 evs"
| "backoff_sleeps n (AcceptFailed e closed # evs) =
     (if \<not> closed \<and> is_temporary e
      then capped_delay n # backoff_sleeps (Suc n) evs
      else [])"

text \<open>What \<open>tempDelay\<close> holds after \<open>n\<close> temporary failures in a row.\<close>

definition delay_at :: "nat \<Rightarrow> Duration \<Rightarrow> bool" where
  "delay_at n d = (if n = 0 then d = 0 else sint d = capped_delay (n - 1))"

subsection \<open>Steps that admit a session\<close>

definition admits :: "task_step \<Rightarrow> bool" where
  "admits x = (case x of NewSession \<Rightarrow> True | HubSet sid \<Rightarrow> True | _ \<Rightarrow> False)"

subsection \<open>Concrete values\<close>

definition example_message :: "nat message" where
  "example_message =
     \<lparr> seq = 7, mtype = 1, serviceMethod = ''Home.Test'', meta = [(''peer_id'', ''110'')],
       bodyCodec = 106, body = Value 42, newBodyFunc = None, xferPipe = [103], msize = 64,
       ctx = Some (GoContext 1) \<rparr>"

definition example_codec :: "nat Codec" where
  "example_codec =
     \<lparr> Marshal = (\<lambda>v. ([of_nat v], None)),
       Unmarshal = (\<lambda>bs tgt. (None, tgt)) \<rparr>"

definition example_registry :: "nat codec_registry" where
  "example_registry = [106 \<mapsto> example_codec]"

definition example_peer :: "int32 \<Rightarrow> peer" where
  "example_peer n =
     \<lparr> pluginContainer = \<lparr> postDial = (\<lambda>s. (None, s)), postAccept = (\<lambda>s. (None, s)) \<rparr>,
       sessHub = [], closeCh_closed = False, defaultSessionAge = 0, defaultContextAge = 0,
       tlsConfig_set = False, redialTimes = n, listeners = [] \<rparr>"

definition example_conn :: conn where
  "example_conn =
     \<lparr> localAddr = ''10.0.0.1:40000'', remoteAddr = ''10.0.0.2:9090'',
       isTLS = False, handshakeErr = None \<rparr>"

definition example_session :: session where
  "example_session =
     \<lparr> sess_conn = example_conn, sess_id = ''10.0.0.1:40000'',
       sess_status = statusOk, canRedial = True \<rparr>"

definition redialed_conn :: conn where
  "redialed_conn =
     \<lparr> localAddr = ''10.0.0.1:40001'', remoteAddr = ''10.0.0.2:9090'',
       isTLS = False, handshakeErr = None \<rparr>"

definition tls_conn_ok :: conn where
  "tls_conn_ok =
     \<lparr> localAddr = ''10.0.0.2:9090'', remoteAddr = ''10.0.0.1:40000'',
       isTLS = True, handshakeErr = None \<rparr>"

definition tls_conn_bad :: conn where
  "tls_conn_bad =
     \<lparr> localAddr = ''10.0.0.2:9090'', remoteAddr = ''10.0.0.1:40002'',
       isTLS = True, handshakeErr = Some (ErrOther ''tls: bad certificate'') \<rparr>"

definition temp_error :: error where
  "temp_error = ErrNet ''accept: too many open files'' True"

definition temp_error2 :: error where
  "temp_error2 = ErrNet ''accept: resource temporarily unavailable'' True"

definition tcp_listener :: listener where
  "tcp_listener = \<lparr> lis_addr = ''0.0.0.0:9090'', isQuic = False \<rparr>"






definition renaming_peer :: peer where
  "renaming_peer =
     (example_peer 3)\<lparr> pluginContainer :=
        \<lparr> postDial = (\<lambda>s. (None, SetID s ''user-42'')),
          postAccept = (\<lambda>s. (None, s)) \<rparr> \<rparr>"


section \<open>Properties\<close>

subsection \<open>Message size\<close>

text \<open>
  C1. For every size and every current limit, \<open>SetSize\<close> returns the
  exceed-message-size-limit error exactly when the size is strictly greater than the
  limit (unsigned comparison); on that error the stored size is unchanged, and
  otherwise there is no error and the stored size is the argument.
\<close>

theorem C1_SetSize:
  "(fst (SetSize g m sz) = Some ErrExceedMessageSizeLimit) = (unat sz > unat (MessageSizeLimit g))
   \<and> (fst (SetSize g m sz) = None) = (unat sz \<le> unat (MessageSizeLimit g))
   \<and> snd (SetSize g m sz) =
       (if unat sz > unat (MessageSizeLimit g) then m else m\<lparr> msize := sz \<rparr>)
   \<and> Size (snd (SetSize g m sz)) =
       (if unat sz > unat (MessageSizeLimit g) then Size m else sz)"
  by (simp add: SetSize_def checkMessageSize_def MessageSizeLimit_def Size_def
        word_less_nat_alt)

text \<open>The limit set to 1024: size 1025 is refused and the stored size stays 64.\<close>

theorem C1_SetSize_witness:
  "fst (SetSize (SetMessageSizeLimit 1024 init_globals) example_message 1025)
     = Some ErrExceedMessageSizeLimit
   \<and> Size (snd (SetSize (SetMessageSizeLimit 1024 init_globals) example_message 1025)) = 64"
  using C1_SetSize [of "SetMessageSizeLimit 1024 init_globals" example_message 1025]
  by (simp add: MessageSizeLimit_def SetMessageSizeLimit_def Size_def example_message_def)

text \<open>
  C2. The limit starts at the largest unsigned 32-bit value; \<open>SetMessageSizeLimit\<close>
  with an argument \<open>\<le> 0\<close> (for a \<open>uint32\<close>: zero) resets it to that value, and any other
  argument becomes the limit.
\<close>

theorem C2_SetMessageSizeLimit:
  "MessageSizeLimit init_globals = MaxUint32
   \<and> unat MaxUint32 = 2 ^ 32 - 1
   \<and> MessageSizeLimit (SetMessageSizeLimit x g) = (if unat x \<le> 0 then MaxUint32 else x)"
  by (simp add: MessageSizeLimit_def init_globals_def SetMessageSizeLimit_def MaxUint32_def
        unat_eq_0)

subsection \<open>Reset\<close>

lemma apply_setting_simps:
  "apply_setting (Inl p) fn = Inl p"
  "apply_setting (Inr m) None = Inr m"
  "apply_setting (Inr m) (Some f) = f m"
  by (simp_all add: apply_setting_def)

lemma foldl_apply_setting_Inl: "foldl apply_setting (Inl p) settings = Inl p"
  by (induction settings) (simp_all add: apply_setting_simps)

lemma doSetting_foldl: "doSetting m settings = foldl apply_setting (Inr m) settings"
proof (induction settings arbitrary: m)
  case Nil
  show ?case by simp
next
  case (Cons fn settings)
  show ?case
  proof (cases fn)
    case None
    then show ?thesis using Cons.IH by (simp add: apply_setting_simps)
  next
    case (Some f)
    then show ?thesis using Cons.IH
      by (cases "f m") (simp_all add: apply_setting_simps foldl_apply_setting_Inl)
  qed
qed

text \<open>
  C3. Whatever the message holds, \<open>Reset\<close> without settings returns the message whose
  every field is zero or empty, the body codec being the nil codec id, which is 0; with
  settings, the result is that of applying them from left to right, starting from the
  cleared message.
\<close>

theorem C3_Reset:
  "Reset m [] =
     Inr \<lparr> seq = 0, mtype = 0, serviceMethod = [], meta = [],
           bodyCodec = NilCodecID, body = NilBody, newBodyFunc = None, xferPipe = [],
           msize = 0, ctx = None \<rparr>
   \<and> NilCodecID = 0
   \<and> Reset m settings = foldl apply_setting (Reset m []) settings"
proof -
  have "Reset m settings = doSetting
      \<lparr> seq = 0, mtype = 0, serviceMethod = [], meta = [],
        bodyCodec = NilCodecID, body = NilBody, newBodyFunc = None, xferPipe = [],
        msize = 0, ctx = None \<rparr> settings" for settings
    by (cases m) (simp add: Reset_def Args_Reset_def XferPipe_Reset_def)
  then show ?thesis
    by (simp add: doSetting_foldl NilCodecID_def)
qed

text \<open>A used message reset with four settings, one of them nil: the later type wins.\<close>

theorem C3_Reset_witness:
  "Reset example_message [WithMtype 1, None, WithBodyCodec 106, WithMtype 2] =
     Inr \<lparr> seq = 0, mtype = 2, serviceMethod = [], meta = [],
           bodyCodec = 106, body = NilBody, newBodyFunc = None, xferPipe = [],
           msize = 0, ctx = None \<rparr>"
  using C3_Reset [of example_message "[WithMtype 1, None, WithBodyCodec 106, WithMtype 2]"]
  by (simp add: apply_setting_simps WithMtype_def WithBodyCodec_def)

subsection \<open>The accept loop backs off\<close>

lemma sint_Second: "sint Second = 1000000000"
  by (simp add: Second_def)

lemma next_delay_0: "next_delay 0 = 5 * Millisecond"
  by (simp add: next_delay_def Millisecond_def Second_def word_sless_alt)

lemma sint_next_delay_0: "sint (next_delay 0) = 5000000"
  by (simp add: next_delay_def Millisecond_def Second_def word_sless_alt)

text \<open>Doubling a delay of at most one second stays far from the 64-bit range.\<close>

lemma sint_double:
  assumes "0 \<le> sint (d::Duration)" "sint d \<le> 1000000000"
  shows "sint (d * 2) = 2 * sint d"
proof -
  have "sint (d * 2) = signed_take_bit 63 (sint d * 2)"
    by (simp add: sint_word_ariths)
  also have "\<dots> = sint d * 2"
    using assms by (intro signed_take_bit_int_eq_self) simp_all
  finally show ?thesis by simp
qed

lemma sint_next_delay:
  assumes "0 < sint (d::Duration)" "sint d \<le> 1000000000"
  shows "sint (next_delay d) = min (2 * sint d) 1000000000"
proof -
  have nz: "d \<noteq> 0" using assms(1) by auto
  have dbl: "sint (d * 2) = 2 * sint d" using assms by (intro sint_double) simp_all
  show ?thesis
    using nz dbl by (simp add: next_delay_def Let_def word_sless_alt sint_Second min_def)
qed

lemma capped_delay_Suc: "capped_delay (Suc i) = min (2 * capped_delay i) 1000000000"
  by (simp add: capped_delay_def min_def)

lemma capped_delay_bounds:
  "0 < capped_delay i" "capped_delay i \<le> 1000000000" "capped_delay i \<le> 5000000 * 2 ^ i"
  by (simp_all add: capped_delay_def)

lemma delay_at_next:
  assumes "delay_at n d"
  shows "sint (next_delay d) = capped_delay n" and "delay_at (Suc n) (next_delay d)"
proof -
  show "sint (next_delay d) = capped_delay n"
  proof (cases n)
    case 0
    then show ?thesis using assms by (simp add: delay_at_def sint_next_delay_0 capped_delay_def)
  next
    case (Suc m)
    then have "sint d = capped_delay m" using assms by (simp add: delay_at_def)
    then show ?thesis
      using Suc capped_delay_bounds[of m] by (simp add: sint_next_delay capped_delay_Suc)
  qed
  then show "delay_at (Suc n) (next_delay d)" by (simp add: delay_at_def)
qed

lemma loop_step_temporary:
  "\<not> closed \<Longrightarrow> is_temporary e \<Longrightarrow>
   serveListener_loop st (AcceptFailed e closed # evs) =
   serveListener_loop
     (st\<lparr> tempDelay := next_delay (tempDelay st),
          slept := slept st @ [next_delay (tempDelay st)] \<rparr>) evs"
  by (cases closed) (simp_all add: next_delay_def Let_def)

text \<open>The loop refines the backoff of the specification, from any number of failures.\<close>

lemma loop_backoff:
  "delay_at n (tempDelay st) \<Longrightarrow>
   \<exists>ds. slept (snd (serveListener_loop st evs)) = slept st @ ds
       \<and> map sint ds = backoff_sleeps n evs"
proof (induction evs arbitrary: st n)
  case Nil
  show ?case by simp
next
  case (Cons ev evs)
  show ?case
  proof (cases ev)
    case (Accepted c)
    have "delay_at 0 (tempDelay (st\<lparr> tempDelay := 0, started := started st @ [c] \<rparr>))"
      by (simp add: delay_at_def)
    from Cons.IH[OF this] show ?thesis using Accepted by simp
  next
    case (AcceptFailed e closed)
    show ?thesis
    proof (cases "\<not> closed \<and> is_temporary e")
      case False
      then show ?thesis using AcceptFailed by auto
    next
      case True
      define st' where "st' = st\<lparr> tempDelay := next_delay (tempDelay st),
          slept := slept st @ [next_delay (tempDelay st)] \<rparr>"
      have step: "serveListener_loop st (ev # evs) = serveListener_loop st' evs"
        unfolding AcceptFailed st'_def using True by (intro loop_step_temporary) simp_all
      have "delay_at (Suc n) (tempDelay st')"
        using delay_at_next(2)[OF Cons.prems] by (simp add: st'_def)
      from Cons.IH[OF this] obtain ds where
        ds: "slept (snd (serveListener_loop st' evs)) = slept st' @ ds"
          "map sint ds = backoff_sleeps (Suc n) evs"
        by blast
      have "slept (snd (serveListener_loop st (ev # evs)))
            = slept st @ (next_delay (tempDelay st) # ds)"
        using ds(1) step by (simp add: st'_def)
      moreover have "map sint (next_delay (tempDelay st) # ds) = backoff_sleeps n (ev # evs)"
        using ds(2) True AcceptFailed delay_at_next(1)[OF Cons.prems] by simp
      ultimately show ?thesis by blast
    qed
  qed
qed

lemma temp_sleeps_backoff:
  assumes "delay_at n (tempDelay st)"
  shows "slept (snd (serveListener_loop st evs)) = slept st @ temp_sleeps st evs"
    and "map sint (temp_sleeps st evs) = backoff_sleeps n evs"
proof -
  obtain ds where ds: "slept (snd (serveListener_loop st evs)) = slept st @ ds"
      "map sint ds = backoff_sleeps n evs"
    using loop_backoff[OF assms] by blast
  then have "temp_sleeps st evs = ds" by (simp add: temp_sleeps_def)
  then show "slept (snd (serveListener_loop st evs)) = slept st @ temp_sleeps st evs"
    and "map sint (temp_sleeps st evs) = backoff_sleeps n evs"
    using ds by simp_all
qed

lemma loop_goes_on:
  "\<forall>ev \<in> set evs. goes_on ev \<Longrightarrow>
   serveListener_loop st (evs @ rest) = serveListener_loop (snd (serveListener_loop st evs)) rest"
proof (induction evs arbitrary: st)
  case Nil
  show ?case by simp
next
  case (Cons ev evs)
  then show ?case by (cases ev) (simp_all add: Let_def)
qed

lemma loop_waits:
  "\<forall>ev \<in> set evs. goes_on ev \<Longrightarrow> fst (serveListener_loop st evs) = None"
proof (induction evs arbitrary: st)
  case Nil
  show ?case by simp
next
  case (Cons ev evs)
  then show ?case by (cases ev) (simp_all add: Let_def)
qed

lemma backoff_sleeps_range:
  "\<forall>x \<in> set (backoff_sleeps n evs). 0 < x \<and> x \<le> 1000000000"
  by (induction n evs rule: backoff_sleeps.induct) (auto simp: capped_delay_bounds)

lemma backoff_failures:
  "\<forall>ev \<in> set evs. temporary_failure ev \<Longrightarrow>
   length (backoff_sleeps n evs) = length evs
   \<and> (\<forall>i < length evs. backoff_sleeps n evs ! i = capped_delay (n + i))"
proof (induction evs arbitrary: n)
  case Nil
  show ?case by simp
next
  case (Cons ev evs)
  then obtain e closed where ev: "ev = AcceptFailed e closed" "\<not> closed" "is_temporary e"
    by (cases ev) auto
  have IH: "length (backoff_sleeps (Suc n) evs) = length evs
      \<and> (\<forall>i < length evs. backoff_sleeps (Suc n) evs ! i = capped_delay (Suc n + i))"
    using Cons.prems by (intro Cons.IH) simp
  show ?case
  proof (intro conjI allI impI)
    show "length (backoff_sleeps n (ev # evs)) = length (ev # evs)"
      using ev IH by simp
  next
    fix i assume "i < length (ev # evs)"
    then show "backoff_sleeps n (ev # evs) ! i = capped_delay (n + i)"
      using ev IH by (cases i) simp_all
  qed
qed

lemma sum_capped_delay: "sum_list (map capped_delay [0..<k]) \<le> 5000000 * (2 ^ k - 1)"
proof (induction k)
  case 0
  show ?case by simp
next
  case (Suc k)
  then show ?case using capped_delay_bounds(3)[of k] by simp
qed

lemma backoff_failures_sum:
  assumes "\<forall>ev \<in> set evs. temporary_failure ev"
  shows "sum_list (backoff_sleeps 0 evs) \<le> 5000000 * (2 ^ length evs - 1)"
proof -
  have eq: "backoff_sleeps 0 evs = map capped_delay [0..<length evs]"
    using backoff_failures[OF assms, of 0] by (intro nth_equalityI) simp_all
  show ?thesis unfolding eq by (rule sum_capped_delay)
qed

text \<open>
  C4. Take any answers \<open>evs\<close> of \<open>Accept\<close>, from a state in which \<open>tempDelay\<close> is zero
  (the start of the loop, as in \<open>serveListener\<close>, or just after a connection). The
  sleeps of the loop are those of the backoff: a temporary failure that follows \<open>n\<close>
  temporary failures in a row sleeps 5 ms doubled \<open>n\<close> times and capped at 1 s, and a
  connection sets the delay to zero, wherever it comes in \<open>evs\<close>. No sleep exceeds 1 s.
  When every answer is a temporary failure (the errors may differ), the loop goes on, it
  sleeps once per failure, the first sleep is 5 ms, each later one is the double of the
  one before capped at 1 s, and over the \<open>k\<close> failures the sleeps are together at most
  5 ms times \<open>2 ^ k - 1\<close>. Durations are in nanoseconds.
\<close>

theorem C4_backoff:
  assumes "tempDelay st = 0"
  shows "slept (snd (serveListener_loop st evs)) = slept st @ temp_sleeps st evs
    \<and> map sint (temp_sleeps st evs) = backoff_sleeps 0 evs
    \<and> map sint (slept (fst (snd (serveListener p lis evs)))) = backoff_sleeps 0 evs
    \<and> (\<forall>d \<in> set (temp_sleeps st evs). 0 < sint d \<and> sint d \<le> sint Second)
    \<and> ((\<forall>ev \<in> set evs. goes_on ev) \<longrightarrow>
          fst (serveListener_loop st evs) = None
        \<and> fst (serveListener p lis evs) = None
        \<and> serveListener_loop st (evs @ rest) =
            serveListener_loop (snd (serveListener_loop st evs)) rest)
    \<and> ((\<forall>ev \<in> set evs. temporary_failure ev) \<longrightarrow>
          length (temp_sleeps st evs) = length evs
        \<and> (\<forall>i < length evs.
              sint (temp_sleeps st evs ! i) = min (5000000 * 2 ^ i) 1000000000)
        \<and> (evs \<noteq> [] \<longrightarrow> temp_sleeps st evs ! 0 = 5 * Millisecond)
        \<and> (\<forall>i. Suc i < length evs \<longrightarrow>
              sint (temp_sleeps st evs ! Suc i)
                = min (2 * sint (temp_sleeps st evs ! i)) (sint Second))
        \<and> sum_list (map sint (temp_sleeps st evs)) \<le> 5000000 * (2 ^ length evs - 1))
    \<and> serveListener_loop st' (Accepted c # rest) =
         serveListener_loop (st'\<lparr> tempDelay := 0, started := started st' @ [c] \<rparr>) rest
    \<and> tempDelay (snd (serveListener_loop st' [Accepted c])) = 0
    \<and> sint Second = 1000000000 \<and> sint Millisecond = 1000000
    \<and> tempDelay init_serve_state = 0"
proof -
  have d0: "delay_at 0 (tempDelay st)"
    using assms by (simp add: delay_at_def)
  have app: "slept (snd (serveListener_loop st evs)) = slept st @ temp_sleeps st evs"
    and ts: "map sint (temp_sleeps st evs) = backoff_sleeps 0 evs"
    using temp_sleeps_backoff[OF d0] by simp_all
  have "delay_at 0 (tempDelay init_serve_state)"
    by (simp add: delay_at_def init_serve_state_def)
  from temp_sleeps_backoff[OF this, of evs]
  have "map sint (slept (snd (serveListener_loop init_serve_state evs))) = backoff_sleeps 0 evs"
    by (simp add: init_serve_state_def)
  then have serve: "map sint (slept (fst (snd (serveListener p lis evs)))) = backoff_sleeps 0 evs"
    by (simp add: serveListener_def Let_def case_prod_beta)
  have each: "\<forall>d \<in> set (temp_sleeps st evs). 0 < sint d \<and> sint d \<le> sint Second"
  proof
    fix d assume "d \<in> set (temp_sleeps st evs)"
    then have "sint d \<in> set (map sint (temp_sleeps st evs))" by simp
    then have "sint d \<in> set (backoff_sleeps 0 evs)" by (simp only: ts)
    then show "0 < sint d \<and> sint d \<le> sint Second"
      using backoff_sleeps_range[of 0 evs] by (simp add: sint_Second)
  qed
  have going: "(\<forall>ev \<in> set evs. goes_on ev) \<longrightarrow>
          fst (serveListener_loop st evs) = None
        \<and> fst (serveListener p lis evs) = None
        \<and> serveListener_loop st (evs @ rest) =
            serveListener_loop (snd (serveListener_loop st evs)) rest"
  proof
    assume g: "\<forall>ev \<in> set evs. goes_on ev"
    have "fst (serveListener_loop init_serve_state evs) = None"
      using g by (rule loop_waits)
    then have "fst (serveListener p lis evs) = None"
      by (simp add: serveListener_def Let_def case_prod_beta)
    then show "fst (serveListener_loop st evs) = None
        \<and> fst (serveListener p lis evs) = None
        \<and> serveListener_loop st (evs @ rest) =
            serveListener_loop (snd (serveListener_loop st evs)) rest"
      using loop_waits[OF g] loop_goes_on[OF g] by simp
  qed
  have failing: "(\<forall>ev \<in> set evs. temporary_failure ev) \<longrightarrow>
          length (temp_sleeps st evs) = length evs
        \<and> (\<forall>i < length evs.
              sint (temp_sleeps st evs ! i) = min (5000000 * 2 ^ i) 1000000000)
        \<and> (evs \<noteq> [] \<longrightarrow> temp_sleeps st evs ! 0 = 5 * Millisecond)
        \<and> (\<forall>i. Suc i < length evs \<longrightarrow>
              sint (temp_sleeps st evs ! Suc i)
                = min (2 * sint (temp_sleeps st evs ! i)) (sint Second))
        \<and> sum_list (map sint (temp_sleeps st evs)) \<le> 5000000 * (2 ^ length evs - 1)"
  proof
    assume f: "\<forall>ev \<in> set evs. temporary_failure ev"
    have len: "length (temp_sleeps st evs) = length evs"
      using backoff_failures[OF f, of 0] ts by (metis length_map)
    have nth: "sint (temp_sleeps st evs ! i) = capped_delay i" if "i < length evs" for i
    proof -
      have "sint (temp_sleeps st evs ! i) = map sint (temp_sleeps st evs) ! i"
        using that len by simp
      also have "\<dots> = capped_delay i"
        using backoff_failures[OF f, of 0] that by (simp add: ts)
      finally show ?thesis .
    qed
    have first: "temp_sleeps st evs ! 0 = 5 * Millisecond" if ne: "evs \<noteq> []"
    proof -
      obtain ev0 evs' where split: "evs = ev0 # evs'"
        using ne by (cases evs) auto
      then have "temporary_failure ev0" using f by simp
      then obtain e closed where "ev0 = AcceptFailed e closed" "\<not> closed" "is_temporary e"
        by (cases ev0) auto
      with split have ev: "evs = AcceptFailed e closed # evs'" "\<not> closed" "is_temporary e"
        by simp_all
      define st1 where "st1 = st\<lparr> tempDelay := next_delay (tempDelay st),
          slept := slept st @ [next_delay (tempDelay st)] \<rparr>"
      have "delay_at 1 (tempDelay st1)"
        using delay_at_next(2)[OF d0] by (simp add: st1_def)
      have step: "serveListener_loop st evs = serveListener_loop st1 evs'"
        unfolding ev(1) st1_def using ev(2,3) by (rule loop_step_temporary)
      from temp_sleeps_backoff(1)[OF \<open>delay_at 1 (tempDelay st1)\<close>, of evs']
      have "slept (snd (serveListener_loop st evs))
          = slept st @ next_delay (tempDelay st) # temp_sleeps st1 evs'"
        by (simp add: step) (simp add: st1_def)
      then have "temp_sleeps st evs = next_delay (tempDelay st) # temp_sleeps st1 evs'"
        by (simp add: temp_sleeps_def)
      then show ?thesis using assms by (simp add: next_delay_0)
    qed
    have total: "sum_list (map sint (temp_sleeps st evs)) \<le> 5000000 * (2 ^ length evs - 1)"
      unfolding ts using f by (rule backoff_failures_sum)
    show "length (temp_sleeps st evs) = length evs
        \<and> (\<forall>i < length evs.
              sint (temp_sleeps st evs ! i) = min (5000000 * 2 ^ i) 1000000000)
        \<and> (evs \<noteq> [] \<longrightarrow> temp_sleeps st evs ! 0 = 5 * Millisecond)
        \<and> (\<forall>i. Suc i < length evs \<longrightarrow>
              sint (temp_sleeps st evs ! Suc i)
                = min (2 * sint (temp_sleeps st evs ! i)) (sint Second))
        \<and> sum_list (map sint (temp_sleeps st evs)) \<le> 5000000 * (2 ^ length evs - 1)"
      using len nth first total
      by (simp add: capped_delay_Suc sint_Second) (simp add: capped_delay_def)
  qed
  have acc: "serveListener_loop st' (Accepted c # rest) =
         serveListener_loop (st'\<lparr> tempDelay := 0, started := started st' @ [c] \<rparr>) rest"
    and acc0: "tempDelay (snd (serveListener_loop st' [Accepted c])) = 0"
    by simp_all
  have units: "sint Second = 1000000000" "sint Millisecond = 1000000"
      "tempDelay init_serve_state = 0"
    by (simp_all add: Second_def Millisecond_def init_serve_state_def)
  show ?thesis
    by (intro conjI) (rule app ts serve each going failing acc acc0 units)+
qed

text \<open>
  Ten temporary failures with two errors in turn, from the start of the loop: the cap is
  reached at the ninth. And a connection between failures: the backoff starts again.
\<close>

theorem C4_backoff_witness:
  "tempDelay init_serve_state = 0
   \<and> list_all temporary_failure
         (concat (replicate 5 [AcceptFailed temp_error False, AcceptFailed temp_error2 False]))
   \<and> map sint (temp_sleeps init_serve_state
        (concat (replicate 5 [AcceptFailed temp_error False, AcceptFailed temp_error2 False]))) =
       [5000000, 10000000, 20000000, 40000000, 80000000, 160000000, 320000000,
        640000000, 1000000000, 1000000000]
   \<and> sum_list (map sint (temp_sleeps init_serve_state
        (concat (replicate 5 [AcceptFailed temp_error False, AcceptFailed temp_error2 False]))))
       \<le> 5000000 * (2 ^ 10 - 1)
   \<and> map sint (temp_sleeps init_serve_state
        [AcceptFailed temp_error False, AcceptFailed temp_error2 False, Accepted example_conn,
         AcceptFailed temp_error2 False, AcceptFailed temp_error False]) =
       [5000000, 10000000, 5000000, 10000000]"
proof -
  let ?evs = "concat (replicate 5 [AcceptFailed temp_error False,
                                   AcceptFailed temp_error2 False])"
  have h0: "tempDelay init_serve_state = 0"
    by (simp add: init_serve_state_def)
  have h1: "\<forall>ev \<in> set ?evs. temporary_failure ev"
    by (simp add: temp_error_def temp_error2_def is_temporary_def)
  have ev1: "map sint (temp_sleeps init_serve_state ?evs) =
       [5000000, 10000000, 20000000, 40000000, 80000000, 160000000, 320000000,
        640000000, 1000000000, 1000000000]"
    by code_simp
  have ev2: "map sint (temp_sleeps init_serve_state
        [AcceptFailed temp_error False, AcceptFailed temp_error2 False, Accepted example_conn,
         AcceptFailed temp_error2 False, AcceptFailed temp_error False]) =
       [5000000, 10000000, 5000000, 10000000]"
    by code_simp
  have "length ?evs = 10" by (simp add: numeral_eq_Suc)
  moreover have "sum_list (map sint (temp_sleeps init_serve_state ?evs))
       \<le> 5000000 * (2 ^ length ?evs - 1)"
    using C4_backoff [OF h0, of ?evs "example_peer 0" tcp_listener "[]" init_serve_state
        example_conn] h1
    by blast
  ultimately have "sum_list (map sint (temp_sleeps init_serve_state ?evs))
       \<le> 5000000 * (2 ^ 10 - 1)"
    by simp
  moreover have "list_all temporary_failure ?evs"
    using h1 by (simp only: list_all_iff)
  ultimately show ?thesis using h0 ev1 ev2 by blast
qed

subsection \<open>The redial counter and a Dial that never connects\<close>

lemma sint_pred:
  assumes "0 < sint (r::int32)"
  shows "sint (r - 1) = sint r - 1"
proof -
  have ub: "sint r < 2 ^ 31" using sint_lt[of r] by simp
  have "sint (r - 1) = signed_take_bit 31 (sint r - 1)"
    by (simp add: sint_word_ariths)
  also have "\<dots> = sint r - 1"
    using assms ub by (intro signed_take_bit_int_eq_self) simp_all
  finally show ?thesis .
qed

lemma sint_pred_nat: "sint (r::int32) = int (Suc n) \<Longrightarrow> sint (r - 1) = int n"
  using sint_pred[of r] by simp

lemma redialTimes_next_neg: "sint r < 0 \<Longrightarrow> redialTimes_next r = (True, r)"
  by (auto simp: redialTimes_next_def word_sless_alt)

lemma redialTimes_next_zero: "redialTimes_next 0 = (False, 0)"
  by (simp add: redialTimes_next_def)

lemma redialTimes_next_pos: "0 < sint r \<Longrightarrow> redialTimes_next r = (True, r - 1)"
  by (auto simp: redialTimes_next_def word_sless_alt)

lemma next_results_neg: "sint r < 0 \<Longrightarrow> next_results r k = replicate k True"
  by (induction k) (simp_all add: redialTimes_next_neg)

lemma next_results_zero: "next_results 0 k = replicate k False"
  by (induction k) (simp_all add: redialTimes_next_zero)

lemma next_results_pos:
  "sint r = int n \<Longrightarrow>
   next_results r k = replicate (min k n) True @ replicate (k - n) False"
proof (induction n arbitrary: r k)
  case 0
  then have "r = 0" by (simp add: signed_eq_0_iff)
  then show ?case by (simp add: next_results_zero)
next
  case (Suc n)
  show ?case
  proof (cases k)
    case 0
    then show ?thesis by simp
  next
    case (Suc k')
    have "redialTimes_next r = (True, r - 1)"
      using Suc.prems by (simp add: redialTimes_next_pos)
    moreover have "next_results (r - 1) k' = replicate (min k' n) True @ replicate (k' - n) False"
      using Suc.prems by (intro Suc.IH sint_pred_nat)
    ultimately show ?thesis using Suc by simp
  qed
qed

text \<open>
  With every call of \<open>dialFunc\<close> failing and a counter that starts at \<open>n \<ge> 0\<close>, the
  redial loop returns after \<open>n\<close> further calls, with the error of the last call made.
\<close>

lemma redial_loop_all_fail:
  assumes fail: "\<forall>i. dialFunc i = Inl (errs i)"
  shows "sint r = int n \<Longrightarrow>
    redial_loop dialFunc r calls e =
      Some (Inl (if n = 0 then e else errs (calls + n - 1)), calls + n)"
proof (induction n arbitrary: r calls e)
  case 0
  then have "r = 0" by (simp add: signed_eq_0_iff)
  then show ?case
    by (subst redial_loop.simps) (simp add: redialTimes_next_zero)
next
  case (Suc n)
  have nx: "redialTimes_next r = (True, r - 1)"
    using Suc.prems by (simp add: redialTimes_next_pos)
  have "redial_loop dialFunc (r - 1) (Suc calls) (errs calls) =
      Some (Inl (if n = 0 then errs calls else errs (Suc calls + n - 1)), Suc calls + n)"
    using Suc.prems by (intro Suc.IH sint_pred_nat)
  then show ?case
    using fail nx by (subst redial_loop.simps) auto
qed

text \<open>
  With a negative counter and every call of \<open>dialFunc\<close> failing, the redial loop does
  not return.
\<close>

lemma redial_loop_unbounded:
  assumes "redial_loop dialFunc r calls e = Some y"
  shows "\<not> (sint r < 0 \<and> (\<forall>i. \<exists>x. dialFunc i = Inl x))"
proof (rule redial_loop.raw_induct
    [where P = "\<lambda>dialFunc r calls e y. \<not> (sint r < 0 \<and> (\<forall>i. \<exists>x. dialFunc i = Inl x))",
     OF _ assms])
  fix f :: "(nat \<Rightarrow> error + conn) \<Rightarrow> int32 \<Rightarrow> nat \<Rightarrow> error \<Rightarrow> ((error + conn) \<times> nat) option"
    and dialFunc r calls e y
  assume IH: "\<And>dialFunc r calls e y. f dialFunc r calls e = Some y \<Longrightarrow>
      \<not> (sint r < 0 \<and> (\<forall>i. \<exists>x. dialFunc i = Inl x))"
    and body: "(case redialTimes_next r of
        (ok, r') \<Rightarrow>
          if ok
          then (case dialFunc calls of
                  Inl dialErr' \<Rightarrow> f dialFunc r' (Suc calls) dialErr'
                | Inr c \<Rightarrow> Some (Inr c, Suc calls))
          else Some (Inl e, calls)) = Some y"
  show "\<not> (sint r < 0 \<and> (\<forall>i. \<exists>x. dialFunc i = Inl x))"
  proof
    assume a: "sint r < 0 \<and> (\<forall>i. \<exists>x. dialFunc i = Inl x)"
    then obtain x where x: "dialFunc calls = Inl x" by blast
    have "f dialFunc r (Suc calls) x = Some y"
      using body a x by (simp add: redialTimes_next_neg)
    then have "\<not> (sint r < 0 \<and> (\<forall>i. \<exists>x. dialFunc i = Inl x))"
      by (rule IH)
    then show False using a by blast
  qed
qed

lemma Dial_unbounded:
  assumes "sint (redialTimes p) < 0" and "\<forall>i. \<exists>x. dialFunc i = Inl x"
  shows "Dial p dialFunc = None"
proof -
  obtain x where x: "dialFunc 0 = Inl x" using assms(2) by blast
  have "redial_loop dialFunc (redialTimes p) 1 x = None"
    using redial_loop_unbounded[of dialFunc "redialTimes p" 1 x] assms
    by (cases "redial_loop dialFunc (redialTimes p) 1 x") auto
  then show ?thesis
    using x by (simp add: Dial_def newSessionForClient_def newRedialTimes_def)
qed

text \<open>
  C5. For a redial counter that starts at \<open>n\<close>, the answers of \<open>k\<close> successive calls of
  \<open>next\<close> are: all true when \<open>n\<close> is negative; all false when \<open>n = 0\<close>; true for the first
  \<open>n\<close> calls and false from then on when \<open>n\<close> is positive. Hence, with \<open>RedialTimes = n \<ge> 0\<close>
  and every call of \<open>dialFunc\<close> failing, \<open>Dial\<close> returns, having called \<open>dialFunc\<close>
  \<open>n + 1\<close> times (the first dial and \<open>n\<close> redials), with the dial-failed error whose reason
  is the text of the last dial error; the peer is unchanged. With a negative
  \<open>RedialTimes\<close> such a \<open>Dial\<close> redials without end: it does not return.
\<close>

theorem C5_redial:
  "(sint n < 0 \<longrightarrow> next_results n k = replicate k True)
   \<and> (n = 0 \<longrightarrow> next_results n k = replicate k False)
   \<and> (0 < sint n \<longrightarrow>
        next_results n k =
          replicate (min k (nat (sint n))) True @ replicate (k - nat (sint n)) False)
   \<and> (0 \<le> sint (redialTimes p) \<and> (\<forall>i. dialFunc i = Inl (errs i)) \<longrightarrow>
        Dial p dialFunc =
          Some (Inl (SetReason rerrDialFailed (Error (errs (nat (sint (redialTimes p)))))),
                Suc (nat (sint (redialTimes p))), p))
   \<and> (sint (redialTimes p) < 0 \<and> (\<forall>i. dialFunc i = Inl (errs i)) \<longrightarrow>
        Dial p dialFunc = None)"
proof (intro conjI impI)
  assume "sint n < 0"
  then show "next_results n k = replicate k True" by (rule next_results_neg)
next
  assume "n = 0"
  then show "next_results n k = replicate k False" by (simp add: next_results_zero)
next
  assume "0 < sint n"
  then have "sint n = int (nat (sint n))" by simp
  then show "next_results n k =
      replicate (min k (nat (sint n))) True @ replicate (k - nat (sint n)) False"
    by (rule next_results_pos)
next
  assume a: "0 \<le> sint (redialTimes p) \<and> (\<forall>i. dialFunc i = Inl (errs i))"
  define N where "N = nat (sint (redialTimes p))"
  have sN: "sint (redialTimes p) = int N" using a by (simp add: N_def)
  have d0: "dialFunc 0 = Inl (errs 0)" using a by simp
  have "redial_loop dialFunc (redialTimes p) 1 (errs 0) =
      Some (Inl (if N = 0 then errs 0 else errs (1 + N - 1)), 1 + N)"
    using a sN by (intro redial_loop_all_fail) simp_all
  then have "redial_loop dialFunc (redialTimes p) 1 (errs 0) = Some (Inl (errs N), Suc N)"
    by (cases N) simp_all
  then show "Dial p dialFunc =
      Some (Inl (SetReason rerrDialFailed (Error (errs (nat (sint (redialTimes p)))))),
            Suc (nat (sint (redialTimes p))), p)"
    using d0 by (simp add: Dial_def newSessionForClient_def newRedialTimes_def N_def)
next
  assume "sint (redialTimes p) < 0 \<and> (\<forall>i. dialFunc i = Inl (errs i))"
  then show "Dial p dialFunc = None"
    by (intro Dial_unbounded) auto
qed

text \<open>
  \<open>RedialTimes = 2\<close>: two answers true, then false; a Dial that is always refused makes
  three calls and fails with that reason.
\<close>

theorem C5_redial_witness:
  "0 < sint (2 :: int32)
   \<and> next_results 2 5 = [True, True, False, False, False]
   \<and> 0 \<le> sint (redialTimes (example_peer 2))
   \<and> Dial (example_peer 2) (\<lambda>i. Inl (ErrOther ''refused'')) =
       Some (Inl \<lparr> kind = DialFailed, Reason = ''refused'' \<rparr>, 3, example_peer 2)"
  using C5_redial [of 2 5 "example_peer 2" "\<lambda>i. Inl (ErrOther ''refused'')"
      "\<lambda>i. ErrOther ''refused''"]
  by (simp add: example_peer_def SetReason_def rerrDialFailed_def Error_def numeral_eq_Suc
        replicate_append_same)

subsection \<open>Closing the peer\<close>






subsection \<open>The handshake comes first\<close>

lemma first_before:
  assumes "tr = pre @ a # post" and "\<forall>x \<in> set pre. \<not> P x" and "\<not> P a"
    and "i < length tr" and "P (tr ! i)"
  shows "\<exists>j<i. tr ! j = a"
proof -
  have "\<not> i < length pre"
    using assms by (auto simp: nth_append)
  moreover have "i \<noteq> length pre"
    using assms by (auto simp: nth_append)
  ultimately have "length pre < i" by simp
  moreover have "tr ! length pre = a" using assms(1) by simp
  ultimately show ?thesis by blast
qed

text \<open>
  C7. For an accepted connection that is a TLS connection: if the handshake fails, the
  task ends with the peer (and so the session hub) as it was, and neither creates nor
  registers a session; and whenever the task creates a session or registers one in the
  hub, the handshake has succeeded and its step comes earlier in the task.
\<close>

theorem C7_handshake_first:
  assumes "isTLS c"
  shows "(handshakeErr c \<noteq> None \<longrightarrow>
            snd (accept_task p c) = p
          \<and> NewSession \<notin> set (fst (accept_task p c))
          \<and> (\<forall>sid. HubSet sid \<notin> set (fst (accept_task p c))))
    \<and> (\<forall>i < length (fst (accept_task p c)).
          (fst (accept_task p c) ! i = NewSession
           \<or> (\<exists>sid. fst (accept_task p c) ! i = HubSet sid))
          \<longrightarrow> handshakeErr c = None \<and> (\<exists>j<i. fst (accept_task p c) ! j = Handshake None))
    \<and> (sessHub (snd (accept_task p c)) \<noteq> sessHub p \<longrightarrow> handshakeErr c = None)"
proof -
  define pre where "pre =
     (if 0 <s defaultSessionAge p then [SetReadDeadline (defaultSessionAge p)] else [])
     @ (if 0 <s defaultContextAge p then [SetReadDeadline (defaultContextAge p)] else [])"
  have pre: "\<forall>x \<in> set pre. \<not> admits x"
    by (auto simp: pre_def admits_def)
  show ?thesis
  proof (cases "handshakeErr c")
    case (Some err)
    then have "accept_task p c = (pre @ [Handshake (Some err)], p)"
      using assms by (simp add: accept_task_def pre_def)
    then have tr: "fst (accept_task p c) = pre @ [Handshake (Some err)]"
      and same: "snd (accept_task p c) = p"
      by simp_all
    have none: "\<forall>x \<in> set (fst (accept_task p c)). \<not> admits x"
      using pre by (simp add: tr admits_def)
    have "fst (accept_task p c) ! i \<noteq> NewSession
        \<and> (\<forall>sid. fst (accept_task p c) ! i \<noteq> HubSet sid)"
      if "i < length (fst (accept_task p c))" for i
    proof -
      have "\<not> admits (fst (accept_task p c) ! i)"
        using none that nth_mem by blast
      then show ?thesis by (auto simp: admits_def)
    qed
    moreover have "NewSession \<notin> set (fst (accept_task p c))"
      and "HubSet sid \<notin> set (fst (accept_task p c))" for sid
      using none by (auto simp: admits_def)
    ultimately show ?thesis
      using Some same by auto
  next
    case None
    then have at: "fst (accept_task p c) = pre @ Handshake None # fst (accept_admit p c)"
      using assms by (simp add: accept_task_def pre_def Let_def split: prod.splits)
    have "\<exists>j<i. fst (accept_task p c) ! j = Handshake None"
      if "i < length (fst (accept_task p c))" and "admits (fst (accept_task p c) ! i)" for i
      using at pre _ that by (rule first_before) (simp add: admits_def)
    then show ?thesis
      using None by (auto simp: admits_def)
  qed
qed

text \<open>
  One TLS connection whose handshake fails, one whose handshake succeeds: the first
  leaves the peer alone, the second is admitted after its handshake.
\<close>

theorem C7_handshake_first_witness:
  "isTLS tls_conn_bad
   \<and> handshakeErr tls_conn_bad \<noteq> None
   \<and> accept_task (example_peer 0) tls_conn_bad =
       ([Handshake (Some (ErrOther ''tls: bad certificate''))], example_peer 0)
   \<and> isTLS tls_conn_ok
   \<and> fst (accept_task (example_peer 0) tls_conn_ok) =
       [Handshake None, NewSession, PostAccept None, HubSet ''10.0.0.2:9090'',
        StartReadAndHandle]"
  using C7_handshake_first [of tls_conn_bad "example_peer 0"]
    C7_handshake_first [of tls_conn_ok "example_peer 0"]
  by (simp add: accept_task_def accept_admit_def tls_conn_bad_def tls_conn_ok_def
        example_peer_def newSession_def ID_def hub_Set_def)

subsection \<open>Marshalling the body\<close>

text \<open>
  C8. \<open>MarshalBody\<close> is a case analysis on the body: a nil body and a nil \<open>*[]byte\<close> give
  empty bytes and no error; a \<open>[]byte\<close> and a non-nil \<open>*[]byte\<close> give their bytes and no
  error, whatever the registry holds; any other value gives the unknown-codec error
  (with empty bytes) when \<open>bodyCodec\<close> is not registered, and otherwise what the
  registered codec's \<open>Marshal\<close> returns for the value.
\<close>

theorem C8_MarshalBody:
  "MarshalBody reg m =
     (case body m of
        NilBody \<Rightarrow> ([], None)
      | BytesPtr None \<Rightarrow> ([], None)
      | BytesPtr (Some b) \<Rightarrow> (b, None)
      | Bytes b \<Rightarrow> (b, None)
      | Value v \<Rightarrow>
          (case reg (bodyCodec m) of
             None \<Rightarrow> ([], Some (ErrUnknownCodec (bodyCodec m)))
           | Some c \<Rightarrow> Marshal c v))
   \<and> (case body m of
         Value v \<Rightarrow> True
       | _ \<Rightarrow> MarshalBody reg m = MarshalBody reg' m)"
  by (simp add: MarshalBody_def codec_Get_def split: body.splits option.splits)

text \<open>
  A value under a registered codec, the same value under an unregistered one, and raw
  bytes with an empty registry.
\<close>

theorem C8_MarshalBody_witness:
  "MarshalBody example_registry example_message = ([42], None)
   \<and> MarshalBody example_registry (example_message\<lparr> bodyCodec := 1 \<rparr>)
       = ([], Some (ErrUnknownCodec 1))
   \<and> MarshalBody Map.empty (example_message\<lparr> body := Bytes [1, 2] \<rparr>) = ([1, 2], None)"
  using C8_MarshalBody [of example_registry example_message Map.empty]
    C8_MarshalBody [of example_registry "example_message\<lparr> bodyCodec := 1 \<rparr>" Map.empty]
    C8_MarshalBody [of Map.empty "example_message\<lparr> body := Bytes [1, 2] \<rparr>" Map.empty]
  by (simp add: example_message_def example_registry_def example_codec_def)

subsection \<open>The identifier across a redial\<close>

text \<open>
  C9, as the code has it. Let a redial succeed: \<open>dialFunc\<close> returns the connection \<open>c\<close>
  and \<open>renewSessionForClient\<close> returns no error. The session is handed to the post-dial
  plugins on the new connection and with the identifier set to the local address of \<open>c\<close>
  if the identifier equalled the old local address just before, and to the old
  identifier otherwise; the session afterwards is what the plugins make of it. So with
  plugins that leave the identifier as they find it, the identifier afterwards is that
  one; and then, unless the old identifier happens to be the new local address already,
  the identifier is the new local address if and only if it equalled the old one.
\<close>

theorem C9_renew_id:
  assumes "fst (renewSessionForClient p sess (Inr c)) = None"
  shows "(\<exists>s. postDial (pluginContainer p) s
                = (None, fst (snd (renewSessionForClient p sess (Inr c))))
            \<and> ID s = (if ID sess = LocalAddr sess then localAddr c else ID sess)
            \<and> LocalAddr s = localAddr c)
       \<and> ((\<forall>s. ID (snd (postDial (pluginContainer p) s)) = ID s) \<longrightarrow>
            ID (fst (snd (renewSessionForClient p sess (Inr c)))) =
              (if ID sess = LocalAddr sess then localAddr c else ID sess)
          \<and> (ID sess \<noteq> localAddr c \<longrightarrow>
               (ID (fst (snd (renewSessionForClient p sess (Inr c)))) = localAddr c)
                 = (ID sess = LocalAddr sess)))"
proof -
  define c' where "c' = (if tlsConfig_set p then tls_Client c else c)"
  define s3 where "s3 =
     (if LocalAddr sess = ID sess
      then SetID (socket_Reset sess c') (LocalAddr (socket_Reset sess c'))
      else SetID (socket_Reset sess c') (ID sess))\<lparr> sess_status := statusOk \<rparr>"
  have la: "localAddr c' = localAddr c"
    by (simp add: c'_def tls_Client_def)
  have id3: "ID s3 = (if ID sess = LocalAddr sess then localAddr c else ID sess)"
    by (auto simp: s3_def ID_def SetID_def LocalAddr_def socket_Reset_def la)
  have la3: "LocalAddr s3 = localAddr c"
    by (auto simp: s3_def SetID_def LocalAddr_def socket_Reset_def la)
  have unfold: "renewSessionForClient p sess (Inr c) =
      (case postDial (pluginContainer p) s3 of
         (Some rerr, sess4) \<Rightarrow> (Some (ToError rerr), session_Close sess4, p)
       | (None, sess4) \<Rightarrow> (None, sess4, p\<lparr> sessHub := hub_Set (sessHub p) sess4 \<rparr>))"
    unfolding renewSessionForClient_def s3_def c'_def Let_def by simp
  obtain r sess4 where pd: "postDial (pluginContainer p) s3 = (r, sess4)"
    by (cases "postDial (pluginContainer p) s3")
  have "r = None"
    using assms by (cases r) (simp_all add: unfold pd)
  then have post: "postDial (pluginContainer p) s3
      = (None, fst (snd (renewSessionForClient p sess (Inr c))))"
    by (simp add: unfold pd)
  have first: "\<exists>s. postDial (pluginContainer p) s
                = (None, fst (snd (renewSessionForClient p sess (Inr c))))
            \<and> ID s = (if ID sess = LocalAddr sess then localAddr c else ID sess)
            \<and> LocalAddr s = localAddr c"
    using post id3 la3 by blast
  have second: "ID (fst (snd (renewSessionForClient p sess (Inr c)))) =
              (if ID sess = LocalAddr sess then localAddr c else ID sess)
          \<and> (ID sess \<noteq> localAddr c \<longrightarrow>
               (ID (fst (snd (renewSessionForClient p sess (Inr c)))) = localAddr c)
                 = (ID sess = LocalAddr sess))"
    if keep: "\<forall>s. ID (snd (postDial (pluginContainer p) s)) = ID s"
  proof -
    have "ID (snd (postDial (pluginContainer p) s3)) = ID s3"
      using keep by blast
    then have "ID (fst (snd (renewSessionForClient p sess (Inr c)))) = ID s3"
      by (simp add: post)
    then show ?thesis using id3 by auto
  qed
  show ?thesis using first second by blast
qed

text \<open>
  A session still named by its local address takes the new local address; a session
  that was given the name \<open>client-7\<close> keeps it.
\<close>

theorem C9_renew_id_witness:
  "fst (renewSessionForClient (example_peer 3) example_session (Inr redialed_conn)) = None
   \<and> ID (fst (snd (renewSessionForClient (example_peer 3) example_session (Inr redialed_conn))))
       = ''10.0.0.1:40001''
   \<and> ID (fst (snd (renewSessionForClient (example_peer 3)
                     (example_session\<lparr> sess_id := ''client-7'' \<rparr>) (Inr redialed_conn))))
       = ''client-7''"
proof -
  have plug: "\<forall>s. ID (snd (postDial (pluginContainer (example_peer 3)) s)) = ID s"
    by (simp add: example_peer_def)
  have ok1: "fst (renewSessionForClient (example_peer 3) example_session (Inr redialed_conn))
      = None"
    by (simp add: renewSessionForClient_def example_peer_def Let_def)
  have ok2: "fst (renewSessionForClient (example_peer 3)
      (example_session\<lparr> sess_id := ''client-7'' \<rparr>) (Inr redialed_conn)) = None"
    by (simp add: renewSessionForClient_def example_peer_def Let_def)
  have "ID (fst (snd (renewSessionForClient (example_peer 3) example_session
            (Inr redialed_conn)))) =
          (if ID example_session = LocalAddr example_session
           then localAddr redialed_conn else ID example_session)"
    using C9_renew_id [OF ok1] plug by blast
  moreover have "ID (fst (snd (renewSessionForClient (example_peer 3)
            (example_session\<lparr> sess_id := ''client-7'' \<rparr>) (Inr redialed_conn)))) =
          (if ID (example_session\<lparr> sess_id := ''client-7'' \<rparr>)
                = LocalAddr (example_session\<lparr> sess_id := ''client-7'' \<rparr>)
           then localAddr redialed_conn else ID (example_session\<lparr> sess_id := ''client-7'' \<rparr>))"
    using C9_renew_id [OF ok2] plug by blast
  ultimately show ?thesis
    using ok1
    by (simp add: ID_def LocalAddr_def example_session_def example_conn_def redialed_conn_def)
qed

text \<open>
  C9 as stated fails: a post-dial plugin that names the session \<open>user-42\<close>. The redial
  succeeds, the identifier equalled the old local address just before, and the
  identifier afterwards is \<open>user-42\<close>, not the new local address.
\<close>

theorem C9_counterexample:
  "fst (renewSessionForClient renaming_peer example_session (Inr redialed_conn)) = None
   \<and> ID example_session = LocalAddr example_session
   \<and> localAddr redialed_conn = ''10.0.0.1:40001''
   \<and> ID (fst (snd (renewSessionForClient renaming_peer example_session (Inr redialed_conn))))
       = ''user-42''
   \<and> ID (fst (snd (renewSessionForClient renaming_peer example_session (Inr redialed_conn))))
       \<noteq> localAddr redialed_conn"
  by (simp add: renewSessionForClient_def renaming_peer_def example_peer_def Let_def
        ID_def SetID_def LocalAddr_def socket_Reset_def example_session_def example_conn_def
        redialed_conn_def)

subsection \<open>Unmarshalling nothing\<close>

text \<open>
  C10. For every message, every registry and every codec id, \<open>UnmarshalBody\<close> of the
  empty byte string returns no error and does not depend on the registry; the message is
  unchanged, except that a nil body is first replaced by what the new-body function
  makes from the header, when that function is set.
\<close>

theorem C10_UnmarshalBody_empty:
  "UnmarshalBody reg m [] =
     Inr (None, case (body m, newBodyFunc m) of
                  (NilBody, Some f) \<Rightarrow> m\<lparr> body := f (header.truncate m) \<rparr>
                | _ \<Rightarrow> m)
   \<and> UnmarshalBody reg m [] = UnmarshalBody reg' m []"
  by (simp add: UnmarshalBody_def)

text \<open>
  A message under an unregistered codec keeps its body; a message without body and
  with a new-body function gets the body the function makes.
\<close>

theorem C10_UnmarshalBody_empty_witness:
  "UnmarshalBody Map.empty example_message [] = Inr (None, example_message)
   \<and> UnmarshalBody Map.empty
       (example_message\<lparr> body := NilBody, newBodyFunc := Some (\<lambda>h. Bytes [mtype h]) \<rparr>) []
     = Inr (None, example_message\<lparr> body := Bytes [1],
                                   newBodyFunc := Some (\<lambda>h. Bytes [mtype h]) \<rparr>)"
  using C10_UnmarshalBody_empty [of Map.empty example_message Map.empty]
    C10_UnmarshalBody_empty [of Map.empty
      "example_message\<lparr> body := NilBody, newBodyFunc := Some (\<lambda>h. Bytes [mtype h]) \<rparr>"
      Map.empty]
  by (simp add: example_message_def header.truncate_def)

end
